theory Spec2Isabelle
  imports Main
begin

section \<open>Python strings\<close>

text \<open>
  A Python \<open>str\<close> is a sequence of Unicode code points (\<open>0\<close> to \<open>0x10FFFF\<close>, lone
  surrogates included), modelled as a list of naturals, so
  that \<open>len\<close>, slicing and the Cyrillic labels of the program count what Python counts.
  \<open>u\<close> reads an ASCII literal.
\<close>

type_synonym pystr = "nat list"

definition u :: "string \<Rightarrow> pystr" where
  "u s = map of_char s"

text \<open>\<open>str.isspace\<close> on one code point: the characters \<open>str.split()\<close> and
  \<open>str.strip()\<close> treat as whitespace.\<close>

definition isspace :: "nat \<Rightarrow> bool" where
  "isspace c = ((9 \<le> c \<and> c \<le> 13) \<or> (28 \<le> c \<and> c \<le> 32) \<or> c = 133 \<or> c = 160
      \<or> c = 5760 \<or> (8192 \<le> c \<and> c \<le> 8202) \<or> c = 8232 \<or> c = 8233
      \<or> c = 8239 \<or> c = 8287 \<or> c = 12288)"

definition nonspace :: "nat \<Rightarrow> bool" where
  "nonspace c = (\<not> isspace c)"

text \<open>\<open>s.split()\<close> without arguments: skip whitespace, take the maximal run of other
  characters as a word, go on after it. No word is empty.\<close>

function py_split :: "pystr \<Rightarrow> pystr list" where
  "py_split s =
     (let t = dropWhile isspace s
      in if t = [] then []
         else takeWhile nonspace t # py_split (dropWhile nonspace t))"
  by pat_completeness auto
termination
proof (relation "measure length")
  show "wf (measure length)" by simp
next
  fix s t :: pystr
  assume t: "t = dropWhile isspace s" and ne: "t \<noteq> []"
  have "length (dropWhile nonspace t) < length t"
  proof (cases t)
    case Nil with ne show ?thesis by simp
  next
    case (Cons c cs)
    have "\<not> isspace (hd (dropWhile isspace s))" using t ne hd_dropWhile[of isspace s] by blast
    then have "\<not> isspace c" using t Cons by (metis list.sel(1))
    then have "dropWhile nonspace t = dropWhile nonspace cs" using Cons by (simp add: nonspace_def)
    then show ?thesis using Cons length_dropWhile_le[of nonspace cs] by simp
  qed
  moreover have "length t \<le> length s" using t by (simp add: length_dropWhile_le)
  ultimately show "(dropWhile nonspace t, s) \<in> measure length" by simp
qed

text \<open>\<open>sep.join(ws)\<close>.\<close>

fun py_join :: "pystr \<Rightarrow> pystr list \<Rightarrow> pystr" where
  "py_join sep [] = []"
| "py_join sep [w] = w"
| "py_join sep (w # v # ws) = w @ sep @ py_join sep (v # ws)"

text \<open>\<open>s.replace(old, new)\<close> where \<open>old\<close> and \<open>new\<close> are one character each, as in every
  call of the program.\<close>

definition py_replace :: "nat \<Rightarrow> nat \<Rightarrow> pystr \<Rightarrow> pystr" where
  "py_replace old new s = map (\<lambda>c. if c = old then new else c) s"

definition py_lstrip :: "pystr \<Rightarrow> pystr" where
  "py_lstrip s = dropWhile isspace s"

definition py_rstrip :: "pystr \<Rightarrow> pystr" where
  "py_rstrip s = rev (dropWhile isspace (rev s))"

text \<open>\<open>s.strip()\<close> without arguments.\<close>

definition py_strip :: "pystr \<Rightarrow> pystr" where
  "py_strip s = py_rstrip (py_lstrip s)"

text \<open>\<open>s.endswith(suffix)\<close>.\<close>

definition py_endswith :: "pystr \<Rightarrow> pystr \<Rightarrow> bool" where
  "py_endswith s suffix =
     (length suffix \<le> length s \<and> drop (length s - length suffix) s = suffix)"

text \<open>\<open>s.split(sep)\<close> for a one-character separator: the pieces between the separators,
  empty pieces included; the empty string gives one empty piece.\<close>

fun py_split_on :: "nat \<Rightarrow> pystr \<Rightarrow> pystr list" where
  "py_split_on sep [] = [[]]"
| "py_split_on sep (c # cs) =
     (if c = sep then [] # py_split_on sep cs
      else (case py_split_on sep cs of
              [] \<Rightarrow> [[c]]
            | w # ws \<Rightarrow> (c # w) # ws))"

text \<open>The slice \<open>s[:n]\<close>; a negative \<open>n\<close> counts from the end.\<close>

definition py_slice_to :: "pystr \<Rightarrow> int \<Rightarrow> pystr" where
  "py_slice_to s n = (if 0 \<le> n then take (nat n) s else take (nat (int (length s) + n)) s)"

text \<open>
  \<open>str.lower\<close> depends on the Unicode case tables, which are no part of the program: the
  functions that call it take it as the parameter \<open>lower\<close>. \<open>lower_latin1\<close> is
  \<open>str.lower\<close> on strings whose code points are all below 256.
\<close>

definition lower_latin1 :: "pystr \<Rightarrow> pystr" where
  "lower_latin1 s =
     map (\<lambda>c. if (65 \<le> c \<and> c \<le> 90) \<or> (192 \<le> c \<and> c \<le> 214) \<or> (216 \<le> c \<and> c \<le> 222)
               then c + 32 else c) s"

section \<open>utils.py\<close>

definition clean_text :: "pystr \<Rightarrow> pystr" where
  "clean_text text = py_join [32] (py_split (py_replace 9 32 (py_replace 10 32 text)))"

text \<open>
  The specification's wording of \<open>clean_text\<close>, to be compared with the definition above:
  every tab and newline becomes a space, every run of whitespace becomes one space, and
  both ends are trimmed.
\<close>

fun collapse_ws :: "pystr \<Rightarrow> pystr" where
  "collapse_ws [] = []"
| "collapse_ws [c] = [if isspace c then 32 else c]"
| "collapse_ws (c # d # cs) =
     (if isspace c then (if isspace d then collapse_ws (d # cs) else 32 # collapse_ws (d # cs))
      else c # collapse_ws (d # cs))"

definition clean_text_spec :: "pystr \<Rightarrow> pystr" where
  "clean_text_spec text =
     py_strip (collapse_ws (map (\<lambda>c. if c = 9 \<or> c = 10 then 32 else c) text))"

text \<open>A string is whitespace-normal when its only whitespace is single spaces, none next
  to another.\<close>

fun ws_normal :: "pystr \<Rightarrow> bool" where
  "ws_normal [] = True"
| "ws_normal [c] = (if isspace c then c = 32 else True)"
| "ws_normal (c # d # cs) =
     ((if isspace c then c = 32 \<and> nonspace d else True) \<and> ws_normal (d # cs))"

section \<open>The Status enumeration\<close>

text \<open>\<open>Status\<close> is a \<open>StrEnum\<close>: each member is the string given as its value, and
  \<open>str\<close> and \<open>format\<close> of a member (so every f-string field) give that value, not the
  member's name.\<close>

datatype Status = DRAFT | READY | SENT | FAILED | INVALID

fun Status_value :: "Status \<Rightarrow> pystr" where
  "Status_value DRAFT = u ''draft''"
| "Status_value READY = u ''ready''"
| "Status_value SENT = u ''sent''"
| "Status_value FAILED = u ''failed''"
| "Status_value INVALID = u ''invalid''"

fun Status_name :: "Status \<Rightarrow> pystr" where
  "Status_name DRAFT = u ''DRAFT''"
| "Status_name READY = u ''READY''"
| "Status_name SENT = u ''SENT''"
| "Status_name FAILED = u ''FAILED''"
| "Status_name INVALID = u ''INVALID''"

section \<open>Exceptions\<close>

text \<open>
  \<open>ValueError msg\<close> is the \<open>ValueError\<close> that \<open>EmailAddress.__init__\<close> raises, with its
  message; \<open>UnpackValueError\<close> is the \<open>ValueError\<close> of a tuple assignment whose right side
  has not exactly as many items as the left; \<open>AttributeError\<close> is an attribute read on
  \<open>None\<close>; \<open>UnicodeEncodeError\<close> is raised when a text that cannot be encoded is written
  to a file.
\<close>

datatype error = ValueError pystr | UnpackValueError | AttributeError | UnicodeEncodeError

section \<open>email\_address.py\<close>

text \<open>An \<open>EmailAddress\<close> object holds one attribute, \<open>_address\<close>, read by the property
  \<open>address\<close>, and is never assigned after construction.\<close>

datatype EmailAddress = Address (address: pystr)

definition normalize_address :: "(pystr \<Rightarrow> pystr) \<Rightarrow> pystr \<Rightarrow> pystr" where
  "normalize_address lower addr = py_strip (lower addr)"

definition check_correct_email :: "pystr \<Rightarrow> bool" where
  "check_correct_email addr =
     (64 \<in> set addr
      \<and> (py_endswith addr (u ''.com'') \<or> py_endswith addr (u ''.ru'')
         \<or> py_endswith addr (u ''.net'')))"

text \<open>The message prefix of the constructor's \<open>ValueError\<close>, in code points.\<close>

definition invalid_email_prefix :: pystr where
  "invalid_email_prefix =
     [1053, 1077, 1082, 1086, 1088, 1088, 1077, 1082, 1090, 1085, 1099, 1081] @ u '' email: ''"

definition EmailAddress_init :: "(pystr \<Rightarrow> pystr) \<Rightarrow> pystr \<Rightarrow> error + EmailAddress" where
  "EmailAddress_init lower addr =
     (let normalized = normalize_address lower addr
      in if \<not> check_correct_email normalized
         then Inl (ValueError (invalid_email_prefix @ addr))
         else Inr (Address normalized))"

definition masked :: "EmailAddress \<Rightarrow> error + pystr" where
  "masked self =
     (case py_split_on 64 (address self) of
        [local, domain] \<Rightarrow> Inr (take 2 local @ u ''***@'' @ domain)
      | _ \<Rightarrow> Inl UnpackValueError)"

section \<open>email.py\<close>

text \<open>
  The fields of an \<open>Email\<close> object. \<open>sender\<close> is declared an \<open>EmailAddress\<close>, but
  \<open>prepare\<close> tests it for truth, so \<open>None\<close> is kept as a value; an \<open>EmailAddress\<close> object
  defines neither \<open>__bool__\<close> nor \<open>__len__\<close> and is always true.
\<close>

record Email =
  subject :: pystr
  body :: pystr
  sender :: "EmailAddress option"
  recipients :: "EmailAddress list"
  date :: "pystr option"
  short_body :: "pystr option"
  status :: Status

text \<open>
  \<open>Email\<close> objects are the only objects the program assigns to after construction. They
  live in a store, a list whose index is the object's identity; a method that assigns to
  \<open>self\<close> takes the store and returns it updated, together with the reference it returns.
\<close>

type_synonym ref = nat
type_synonym heap = "Email list"

datatype recipients_arg = Single EmailAddress | Several "EmailAddress list"

text \<open>The generated \<open>__init__\<close> followed by \<open>__post_init__\<close>: a new object, with a single
  recipient wrapped into a list.\<close>

definition Email_init ::
  "heap \<Rightarrow> pystr \<Rightarrow> pystr \<Rightarrow> EmailAddress option \<Rightarrow> recipients_arg \<Rightarrow> pystr option \<Rightarrow>
   pystr option \<Rightarrow> Status \<Rightarrow> heap \<times> ref" where
  "Email_init h subj bod sndr rcpts dat short stat =
     (h @ [\<lparr>subject = subj, body = bod, sender = sndr,
            recipients = (case rcpts of Single r \<Rightarrow> [r] | Several rs \<Rightarrow> rs),
            date = dat, short_body = short, status = stat\<rparr>],
      length h)"

definition get_recipients_str :: "Email \<Rightarrow> pystr" where
  "get_recipients_str self = py_join (u '', '') (map address (recipients self))"

definition clean_data :: "heap \<Rightarrow> ref \<Rightarrow> heap \<times> ref" where
  "clean_data h self =
     (let h1 = h[self := (h ! self)\<lparr>subject := clean_text (subject (h ! self))\<rparr>];
          h2 = h1[self := (h1 ! self)\<lparr>body := clean_text (body (h1 ! self))\<rparr>]
      in (h2, self))"

definition add_short_body :: "heap \<Rightarrow> ref \<Rightarrow> int \<Rightarrow> heap \<times> ref" where
  "add_short_body h self n =
     (if body (h ! self) = [] then (h[self := (h ! self)\<lparr>short_body := None\<rparr>], self)
      else if int (length (body (h ! self))) \<le> n
        then (h[self := (h ! self)\<lparr>short_body := Some (body (h ! self))\<rparr>], self)
      else (h[self := (h ! self)\<lparr>short_body :=
              Some (py_slice_to (body (h ! self)) n @ u ''...'')\<rparr>], self))"

text \<open>\<open>bool(self.subject and self.body)\<close>: \<open>x and y\<close> is \<open>x\<close> when \<open>x\<close> is false (empty),
  else \<open>y\<close>; a string is true when it is not empty.\<close>

definition is_valid_fields :: "Email \<Rightarrow> bool" where
  "is_valid_fields self =
     ((if subject self = [] then subject self else body self) \<noteq> [])"

definition prepare :: "heap \<Rightarrow> ref \<Rightarrow> heap \<times> ref" where
  "prepare h self =
     (let h1 = fst (clean_data h self);
          h2 = (if subject (h1 ! self) \<noteq> [] \<and> body (h1 ! self) \<noteq> []
                   \<and> sender (h1 ! self) \<noteq> None \<and> recipients (h1 ! self) \<noteq> []
                then h1[self := (h1 ! self)\<lparr>status := READY\<rparr>]
                else h1[self := (h1 ! self)\<lparr>status := INVALID\<rparr>]);
          h3 = fst (add_short_body h2 self 10)
      in (h3, self))"

text \<open>The labels of the display string and of the log line, in code points.\<close>

definition label_to :: pystr where
  "label_to = [1050, 1086, 1084, 1091]"

definition label_from :: pystr where
  "label_from = [1054, 1090]"

definition label_subject :: pystr where
  "label_subject = [1058, 1077, 1084, 1072]"

definition label_date :: pystr where
  "label_date = [1076, 1072, 1090, 1072]"

text \<open>An f-string field holding an optional string: \<open>None\<close> prints as \<open>None\<close>.\<close>

definition format_opt :: "pystr option \<Rightarrow> pystr" where
  "format_opt x = (case x of None \<Rightarrow> u ''None'' | Some s \<Rightarrow> s)"

text \<open>\<open>__str__\<close>; \<open>__repr__\<close> returns the same.\<close>

definition Email_str :: "Email \<Rightarrow> error + pystr" where
  "Email_str self =
     (let recipients_str = get_recipients_str self
      in case sender self of
           None \<Rightarrow> Inl AttributeError
         | Some s \<Rightarrow>
             (case masked s of
                Inl e \<Rightarrow> Inl e
              | Inr m \<Rightarrow>
                  Inr (u ''Status: '' @ Status_value (status self) @ [10]
                       @ label_to @ u '': '' @ recipients_str @ [10]
                       @ label_from @ u '': '' @ m @ [10]
                       @ label_subject @ u '': '' @ subject self @ u '', '' @ label_date
                         @ u '' '' @ format_opt (date self) @ [10]
                       @ (case short_body self of
                            None \<Rightarrow> body self
                          | Some sb \<Rightarrow> if sb = [] then body self else sb))))"

definition Email_repr :: "Email \<Rightarrow> error + pystr" where
  "Email_repr self = Email_str self"

section \<open>service.py\<close>

text \<open>
  The system clock is an input: \<open>clk k\<close> is the date that the \<open>k\<close>-th call of
  \<open>date.today()\<close> within one \<open>send_email\<close> reads. \<open>strftime("%Y-%m-%d")\<close> prints the year
  in four digits and the month and day in two (\<open>datetime.date\<close> has years 1 to 9999).
\<close>

record pydate =
  year :: nat
  month :: nat
  day :: nat

type_synonym clock = "nat \<Rightarrow> pydate"

definition digit :: "nat \<Rightarrow> nat" where
  "digit n = 48 + n mod 10"

definition strftime_ymd :: "pydate \<Rightarrow> pystr" where
  "strftime_ymd d =
     [digit (year d div 1000), digit (year d div 100), digit (year d div 10), digit (year d)]
     @ u ''-'' @ [digit (month d div 10), digit (month d)]
     @ u ''-'' @ [digit (day d div 10), digit (day d)]"

record EmailService =
  email :: ref

definition EmailService_init :: "ref \<Rightarrow> EmailService" where
  "EmailService_init e = \<lparr>email = e\<rparr>"

definition add_send_date :: "pydate \<Rightarrow> pystr" where
  "add_send_date today = strftime_ymd today"

text \<open>\<open>copy.deepcopy\<close> of an \<open>Email\<close>: a new object with equal fields.\<close>

definition deepcopy :: "heap \<Rightarrow> ref \<Rightarrow> heap \<times> ref" where
  "deepcopy h r = (h @ [h ! r], length h)"

text \<open>The body of the \<open>for\<close> loop of \<open>send_email\<close>, once for each remaining recipient;
  \<open>k\<close> counts the clock readings and \<open>sent_emails\<close> is the list built so far.\<close>

fun send_loop ::
  "clock \<Rightarrow> EmailService \<Rightarrow> EmailAddress list \<Rightarrow> nat \<Rightarrow> heap \<Rightarrow> ref list \<Rightarrow> heap \<times> ref list"
  where
  "send_loop clk self [] k h sent_emails = (h, sent_emails)"
| "send_loop clk self (recipient # rest) k h sent_emails =
     (let (h1, new_email) = deepcopy h (email self);
          h2 = h1[new_email := (h1 ! new_email)\<lparr>recipients := [recipient]\<rparr>];
          h3 = h2[new_email := (h2 ! new_email)\<lparr>date := Some (add_send_date (clk k))\<rparr>];
          h4 = (if status (h3 ! email self) = READY
                then h3[new_email := (h3 ! new_email)\<lparr>status := SENT\<rparr>]
                else h3[new_email := (h3 ! new_email)\<lparr>status := FAILED\<rparr>])
      in send_loop clk self rest (Suc k) h4 (sent_emails @ [new_email]))"

definition send_email :: "clock \<Rightarrow> heap \<Rightarrow> EmailService \<Rightarrow> heap \<times> ref list" where
  "send_email clk h self =
     (if recipients (h ! email self) = [] then (h, [])
      else send_loop clk self (recipients (h ! email self)) 0 h [])"

text \<open>One line of the log, as \<open>LoggingEmailService.send_email\<close> formats it.\<close>

definition log_line :: "Email \<Rightarrow> error + pystr" where
  "log_line e =
     (case sender e of
        None \<Rightarrow> Inl AttributeError
      | Some s \<Rightarrow>
          Inr (u ''['' @ format_opt (date e) @ u ''] Status: '' @ Status_value (status e)
               @ u '', '' @ label_from @ u '': '' @ address s
               @ u '', '' @ label_to @ u '': '' @ get_recipients_str e
               @ u '', '' @ label_subject @ u '': '' @ subject e @ [10]))"

text \<open>
  The file \<open>send.log\<close> is opened for append with the encoding UTF-8, and is modelled by
  its text. \<open>log_file.write(text)\<close> encodes the text and adds it at the end; a surrogate code
  point (\<open>U+D800\<close> to \<open>U+DFFF\<close>) has no UTF-8 encoding, and a text holding one raises
  \<open>UnicodeEncodeError\<close> with nothing of it written. The file system itself is taken to
  accept every open and every write.
\<close>

definition surrogate :: "nat \<Rightarrow> bool" where
  "surrogate c = (55296 \<le> c \<and> c \<le> 57343)"

definition utf8_encodable :: "pystr \<Rightarrow> bool" where
  "utf8_encodable text = (\<forall>c \<in> set text. \<not> surrogate c)"

definition file_write :: "pystr \<Rightarrow> pystr \<Rightarrow> error + pystr" where
  "file_write log_file text =
     (if utf8_encodable text then Inr (log_file @ text) else Inl UnicodeEncodeError)"

text \<open>
  The loop over \<open>sent_emails\<close> inside the \<open>with\<close> block: one \<open>write\<close> for each email. An
  exception ends the loop; the file is closed with what was written before it.
\<close>

fun write_log :: "heap \<Rightarrow> ref list \<Rightarrow> pystr \<Rightarrow> pystr \<times> error option" where
  "write_log h [] log_file = (log_file, None)"
| "write_log h (e # es) log_file =
     (case log_line (h ! e) of
        Inl err \<Rightarrow> (log_file, Some err)
      | Inr line \<Rightarrow>
          (case file_write log_file line of
             Inl err \<Rightarrow> (log_file, Some err)
           | Inr log_file' \<Rightarrow> write_log h es log_file'))"

definition logging_send_email ::
  "clock \<Rightarrow> heap \<Rightarrow> EmailService \<Rightarrow> pystr \<Rightarrow> heap \<times> pystr \<times> (error + ref list)" where
  "logging_send_email clk h self log_file =
     (let (h', sent_emails) = send_email clk h self;
          (log_file', raised) = write_log h' sent_emails log_file
      in (h', log_file', (case raised of None \<Rightarrow> Inr sent_emails | Some err \<Rightarrow> Inl err)))"

section \<open>Auxiliary definitions\<close>

text \<open>The fields of an email after \<open>prepare\<close>, in closed form (lemma \<open>prepare_eq\<close>).\<close>

definition prepared :: "Email \<Rightarrow> Email" where
  "prepared e =
     e\<lparr>subject := clean_text (subject e),
       body := clean_text (body e),
       status := (if clean_text (subject e) \<noteq> [] \<and> clean_text (body e) \<noteq> []
                     \<and> sender e \<noteq> None \<and> recipients e \<noteq> []
                  then READY else INVALID),
       short_body := (if clean_text (body e) = [] then None
                      else if length (clean_text (body e)) \<le> 10 then Some (clean_text (body e))
                      else Some (take 10 (clean_text (body e)) @ u ''...''))\<rparr>"

text \<open>A message used as concrete input: the uncleaned subject and body of the
  specification's example, two recipients.\<close>

definition example_email :: Email where
  "example_email =
     \<lparr>subject = u ''  Hello   world  '', body = u '' Test   body\<newline>with   spaces '',
      sender = Some (Address (u ''a@a.com'')),
      recipients = [Address (u ''b@b.com''), Address (u ''c@c.com'')],
      date = None, short_body = None, status = DRAFT\<rparr>"

text \<open>The copy that \<open>send_email\<close> makes of email \<open>e\<close> for its \<open>i\<close>-th recipient.\<close>

definition sent_copy :: "clock \<Rightarrow> Email \<Rightarrow> nat \<Rightarrow> Email" where
  "sent_copy clk e i =
     e\<lparr>recipients := [recipients e ! i],
       date := Some (add_send_date (clk i)),
       status := (if status e = READY then SENT else FAILED)\<rparr>"

text \<open>A clock that passes midnight between two readings, and a message ready to be sent.\<close>

definition example_clock :: clock where
  "example_clock k = \<lparr>year = 2026, month = 11, day = 3 + k\<rparr>"

definition example_ready :: Email where
  "example_ready =
     \<lparr>subject = u ''Hello'', body = u ''Msg'', sender = Some (Address (u ''a@a.com'')),
      recipients = [Address (u ''b@b.com''), Address (u ''c@c.com'')],
      date = None, short_body = None, status = READY\<rparr>"

text \<open>The log line of the \<open>i\<close>-th copy of email \<open>e\<close> whose sender is \<open>s\<close>.\<close>

definition sent_line :: "clock \<Rightarrow> Email \<Rightarrow> EmailAddress \<Rightarrow> nat \<Rightarrow> pystr" where
  "sent_line clk e s i =
     u ''['' @ add_send_date (clk i) @ u ''] Status: ''
     @ (if status e = READY then u ''sent'' else u ''failed'')
     @ u '', '' @ label_from @ u '': '' @ address s
     @ u '', '' @ label_to @ u '': '' @ address (recipients e ! i)
     @ u '', '' @ label_subject @ u '': '' @ subject e @ [10]"

section \<open>Properties of the string functions\<close>

declare py_split.simps [simp del]

lemma isspace_32: "isspace 32"
  by (simp add: isspace_def)

lemma py_split_Nil: "py_split [] = []"
  by (simp add: py_split.simps)

lemma py_split_space: "isspace c \<Longrightarrow> py_split (c # s) = py_split s"
  by (simp add: py_split.simps [of "c # s"] py_split.simps [of s])

lemma py_split_word:
  "\<not> isspace c \<Longrightarrow>
   py_split (c # s) = (c # takeWhile nonspace s) # py_split (dropWhile nonspace s)"
  by (simp add: py_split.simps [of "c # s"] nonspace_def)

lemma py_split_cons:
  assumes "\<not> isspace c"
  shows "py_split (c # s) =
     (if s = [] \<or> isspace (hd s) then [c] # py_split s
      else (c # hd (py_split s)) # tl (py_split s))"
proof (cases s)
  case Nil
  then show ?thesis using assms by (simp add: py_split_word py_split_Nil)
next
  case (Cons d t)
  show ?thesis
  proof (cases "isspace d")
    case True
    then show ?thesis using assms Cons by (simp add: py_split_word nonspace_def)
  next
    case False
    then show ?thesis using assms Cons by (simp add: py_split_word nonspace_def)
  qed
qed

lemma py_split_words:
  "w \<in> set (py_split s) \<Longrightarrow> w \<noteq> [] \<and> (\<forall>c \<in> set w. \<not> isspace c)"
proof (induction s arbitrary: w rule: py_split.induct)
  case (1 s)
  define t where "t = dropWhile isspace s"
  show ?case
  proof (cases "t = []")
    case True
    then show ?thesis using "1.prems" by (simp add: py_split.simps [of s] t_def)
  next
    case False
    then have sp: "py_split s = takeWhile nonspace t # py_split (dropWhile nonspace t)"
      by (simp add: py_split.simps [of s] t_def Let_def)
    have hd: "\<not> isspace (hd t)"
      using False hd_dropWhile [of isspace s] by (simp add: t_def)
    have first: "takeWhile nonspace t \<noteq> []"
      using False hd by (cases t) (simp_all add: nonspace_def)
    have clean: "\<forall>c \<in> set (takeWhile nonspace t). \<not> isspace c"
      using set_takeWhileD [of _ nonspace t] by (auto simp: nonspace_def)
    from "1.prems" sp
    consider "w = takeWhile nonspace t" | "w \<in> set (py_split (dropWhile nonspace t))"
      by auto
    then show ?thesis
    proof cases
      case 1
      then show ?thesis using first clean by simp
    next
      case 2
      then show ?thesis using "1.IH" [OF t_def False] by simp
    qed
  qed
qed

lemma py_join_Cons_Cons: "py_join sep ((c # w) # ws) = c # py_join sep (w # ws)"
  by (cases ws) simp_all

lemma py_join_eq_Nil:
  "\<forall>w \<in> set ws. w \<noteq> [] \<Longrightarrow> (py_join sep ws = []) = (ws = [])"
  by (induction sep ws rule: py_join.induct) simp_all

lemma py_join_chars:
  "c \<in> set (py_join sep ws) \<Longrightarrow> c \<in> set sep \<or> (\<exists>w \<in> set ws. c \<in> set w)"
  by (induction sep ws rule: py_join.induct) auto

lemma py_split_join:
  "\<forall>w \<in> set ws. w \<noteq> [] \<and> (\<forall>c \<in> set w. \<not> isspace c) \<Longrightarrow>
   py_split (py_join [32] ws) = ws"
proof (induction ws)
  case Nil
  then show ?case by (simp add: py_split_Nil)
next
  case (Cons w ws)
  from Cons.prems obtain c w' where w: "w = c # w'" and c: "\<not> isspace c"
    and w': "\<forall>x \<in> set w'. \<not> isspace x"
    by (cases w) auto
  have tk: "takeWhile nonspace (w' @ 32 # r) = w'" for r
    using w' by (simp add: takeWhile_append2 nonspace_def isspace_32)
  have dr: "dropWhile nonspace (w' @ 32 # r) = 32 # r" for r
    using w' by (simp add: dropWhile_append2 nonspace_def isspace_32)
  show ?case
  proof (cases ws)
    case Nil
    have tw: "takeWhile nonspace w' = w'" and dw: "dropWhile nonspace w' = []"
      using w' by (simp_all add: nonspace_def)
    have "py_split (c # w') = [c # w']"
      unfolding py_split_word [OF c] tw dw py_split_Nil ..
    then show ?thesis using Nil w by simp
  next
    case (Cons v vs)
    have "py_split (py_join [32] (w # ws)) = w # py_split (32 # py_join [32] ws)"
      using Cons w c by (simp add: py_split_word tk dr)
    also have "py_split (32 # py_join [32] ws) = ws"
      using Cons.IH Cons.prems by (simp add: py_split_space isspace_32)
    finally show ?thesis .
  qed
qed

lemma clean_text_fixed:
  assumes "\<forall>w \<in> set ws. w \<noteq> [] \<and> (\<forall>c \<in> set w. \<not> isspace c)"
  shows "clean_text (py_join [32] ws) = py_join [32] ws"
proof -
  have "c \<noteq> 9 \<and> c \<noteq> 10" if "c \<in> set (py_join [32] ws)" for c
  proof -
    from py_join_chars [OF that] assms have "c = 32 \<or> \<not> isspace c" by auto
    then show ?thesis by (auto simp: isspace_def)
  qed
  then have "py_replace 9 32 (py_replace 10 32 (py_join [32] ws)) = py_join [32] ws"
    by (simp add: py_replace_def map_idI)
  then show ?thesis using assms by (simp add: clean_text_def py_split_join)
qed

lemma clean_text_idem: "clean_text (clean_text s) = clean_text s"
  unfolding clean_text_def [of s]
  by (rule clean_text_fixed) (use py_split_words in blast)


lemma collapse_ws_eq_Nil: "(collapse_ws s = []) = (s = [])"
  by (induction s rule: collapse_ws.induct) simp_all

lemma isspace_hd_collapse_ws: "s \<noteq> [] \<Longrightarrow> isspace (hd (collapse_ws s)) = isspace (hd s)"
  by (induction s rule: collapse_ws.induct) (simp_all add: isspace_32)

lemma py_split_collapse_ws: "py_split (collapse_ws s) = py_split s"
proof (induction s rule: collapse_ws.induct)
  case 1
  show ?case by simp
next
  case (2 c)
  show ?case by (simp add: py_split_space isspace_32 py_split_Nil)
next
  case (3 c d cs)
  show ?case
  proof (cases "isspace c")
    case True
    then show ?thesis using 3 by (simp add: py_split_space isspace_32)
  next
    case False
    have "py_split (c # collapse_ws (d # cs)) = py_split (c # d # cs)"
      unfolding py_split_cons [OF False]
      using 3 False isspace_hd_collapse_ws [of "d # cs"] collapse_ws_eq_Nil [of "d # cs"]
      by simp
    then show ?thesis using False by simp
  qed
qed

lemma ws_normal_collapse_ws: "ws_normal (collapse_ws s)"
proof (induction s rule: collapse_ws.induct)
  case 1
  show ?case by simp
next
  case (2 c)
  show ?case by simp
next
  case (3 c d cs)
  have ne: "collapse_ws (d # cs) \<noteq> []" by (simp add: collapse_ws_eq_Nil)
  then obtain e es where e: "collapse_ws (d # cs) = e # es" by (cases "collapse_ws (d # cs)") auto
  have hd: "isspace e = isspace d"
    using isspace_hd_collapse_ws [of "d # cs"] e by simp
  show ?case
  proof (cases "isspace c")
    case True
    then show ?thesis using 3 e hd by (simp add: isspace_32 nonspace_def)
  next
    case False
    then show ?thesis using 3 e by simp
  qed
qed

lemma dropWhile_append_nonempty:
  "dropWhile P xs \<noteq> [] \<Longrightarrow> dropWhile P (xs @ ys) = dropWhile P xs @ ys"
  by (induction xs) auto

lemma py_rstrip_eq_Nil: "(py_rstrip s = []) = (\<forall>c \<in> set s. isspace c)"
  by (simp add: py_rstrip_def)

lemma py_rstrip_Cons:
  "py_rstrip (c # s) = (if isspace c \<and> py_rstrip s = [] then [] else c # py_rstrip s)"
proof (cases "\<forall>x \<in> set s. isspace x")
  case True
  then have "dropWhile isspace (rev s @ [c]) = dropWhile isspace [c]"
    by (intro dropWhile_append2) simp
  then show ?thesis using True by (simp add: py_rstrip_def)
next
  case False
  then have "dropWhile isspace (rev s) \<noteq> []" by simp
  then have "dropWhile isspace (rev s @ [c]) = dropWhile isspace (rev s) @ [c]"
    by (rule dropWhile_append_nonempty)
  then show ?thesis using False by (simp add: py_rstrip_def)
qed

lemma py_join_split_normal: "ws_normal t \<Longrightarrow> py_join [32] (py_split t) = py_strip t"
proof (induction t rule: ws_normal.induct)
  case 1
  show ?case by (simp add: py_split_Nil py_strip_def py_lstrip_def py_rstrip_def)
next
  case (2 c)
  show ?case
    by (cases "isspace c")
       (simp_all add: py_split_space py_split_word py_split_Nil py_strip_def py_lstrip_def
          py_rstrip_def)
next
  case (3 c d cs)
  let ?W = "py_split (d # cs)"
  from "3.prems" have nd: "ws_normal (d # cs)" by simp
  then have IH: "py_join [32] ?W = py_strip (d # cs)" by (rule "3.IH")
  have words: "\<forall>w \<in> set ?W. w \<noteq> []" using py_split_words by blast
  show ?case
  proof (cases "isspace c")
    case True
    with "3.prems" have "\<not> isspace d" by (simp add: nonspace_def)
    then show ?thesis using True IH by (simp add: py_split_space py_strip_def py_lstrip_def)
  next
    case c: False
    have strip: "py_strip (c # d # cs) = c # py_rstrip (d # cs)"
      using c by (simp add: py_strip_def py_lstrip_def py_rstrip_Cons)
    show ?thesis
    proof (cases "isspace d")
      case d: True
      have cs: "py_lstrip cs = cs"
      proof (cases cs)
        case Nil then show ?thesis by (simp add: py_lstrip_def)
      next
        case (Cons e es)
        with nd d have "\<not> isspace e" by (simp add: nonspace_def)
        then show ?thesis using Cons by (simp add: py_lstrip_def)
      qed
      have IH': "py_join [32] ?W = py_rstrip cs"
        using IH d cs by (simp add: py_strip_def py_lstrip_def)
      have d32: "d = 32" using nd d by (cases cs) (simp_all split: if_splits)
      have sp: "py_split (c # d # cs) = [c] # ?W"
        using c d by (simp add: py_split_cons)
      show ?thesis
      proof (cases "?W = []")
        case True
        then have "py_rstrip cs = []" using IH' by simp
        then show ?thesis using True sp strip d by (simp add: py_rstrip_Cons)
      next
        case False
        then obtain w ws where W: "?W = w # ws" by (cases ?W) auto
        have "py_rstrip cs \<noteq> []"
          using IH' False words py_join_eq_Nil [of ?W "[32]"] by simp
        then have "py_rstrip (d # cs) = 32 # py_rstrip cs"
          using d32 by (simp add: py_rstrip_Cons)
        moreover have "py_join [32] ([c] # ?W) = c # 32 # py_join [32] ?W"
          using W by simp
        ultimately show ?thesis using sp strip IH' by simp
      qed
    next
      case d: False
      have ne: "?W \<noteq> []" using d by (simp add: py_split_word)
      then obtain w ws where W: "?W = w # ws" by (cases ?W) auto
      have sp: "py_split (c # d # cs) = (c # w) # ws"
        using c d W by (simp add: py_split_cons)
      have "py_strip (d # cs) = py_rstrip (d # cs)"
        using d by (simp add: py_strip_def py_lstrip_def)
      then show ?thesis using sp strip IH W by (simp add: py_join_Cons_Cons)
    qed
  qed
qed

lemma py_replace_tab_newline:
  "py_replace 9 32 (py_replace 10 32 text) = map (\<lambda>c. if c = 9 \<or> c = 10 then 32 else c) text"
  by (simp add: py_replace_def)

lemma clean_text_refines: "clean_text text = clean_text_spec text"
proof -
  let ?t = "map (\<lambda>c. if c = 9 \<or> c = 10 then 32 else c) text"
  have "clean_text text = py_join [32] (py_split (collapse_ws ?t))"
    by (simp add: clean_text_def py_replace_tab_newline py_split_collapse_ws)
  also have "\<dots> = py_strip (collapse_ws ?t)"
    by (rule py_join_split_normal) (rule ws_normal_collapse_ws)
  finally show ?thesis by (simp add: clean_text_spec_def)
qed

lemmas str_eval = u_def isspace_def nonspace_def py_replace_def py_strip_def py_lstrip_def
  py_rstrip_def py_split.simps

section \<open>clean\_text\<close>

text \<open>
  C8. For every string, \<open>clean_text\<close> replaces every tab and newline by a space, then
  collapses every run of whitespace into one space and trims both ends: the function of
  the source equals the function written from these words. In particular the two strings
  of the specification are cleaned to \<open>Hello world\<close> and \<open>Test body with spaces\<close>.
\<close>

theorem clean_text_collapses:
  "clean_text text = clean_text_spec text
   \<and> clean_text (u ''  Hello   world  '') = u ''Hello world''
   \<and> clean_text (u '' Test   body\<newline>with   spaces '') = u ''Test body with spaces''"
proof (intro conjI)
  show "clean_text text = clean_text_spec text" by (rule clean_text_refines)
  show "clean_text (u ''  Hello   world  '') = u ''Hello world''"
    by (simp add: clean_text_def str_eval)
  show "clean_text (u '' Test   body\<newline>with   spaces '') = u ''Test body with spaces''"
    by (simp add: clean_text_def str_eval)
qed

theorem clean_text_collapses_witness:
  "clean_text [9, 97, 10, 13, 98, 32] = clean_text_spec [9, 97, 10, 13, 98, 32]
   \<and> clean_text_spec [9, 97, 10, 13, 98, 32] = [97, 32, 98]"
  using clean_text_collapses [of "[9, 97, 10, 13, 98, 32]"]
  by (simp add: clean_text_spec_def str_eval)

section \<open>Address construction\<close>

lemma py_strip_all_space: "\<forall>c \<in> set s. isspace c \<Longrightarrow> py_strip s = []"
  by (auto simp: py_strip_def py_lstrip_def py_rstrip_def dest: set_dropWhileD)

lemma lower_latin1_space: "\<forall>c \<in> set s. isspace c \<Longrightarrow> lower_latin1 s = s"
proof -
  assume a: "\<forall>c \<in> set s. isspace c"
  have "\<And>c. c \<in> set s \<Longrightarrow> \<not> ((65 \<le> c \<and> c \<le> 90) \<or> (192 \<le> c \<and> c \<le> 214) \<or> (216 \<le> c \<and> c \<le> 222))"
    using a by (auto simp: isspace_def)
  then show ?thesis unfolding lower_latin1_def by (intro map_idI) simp
qed

lemmas addr_eval = EmailAddress_init_def normalize_address_def check_correct_email_def
  py_endswith_def lower_latin1_def invalid_email_prefix_def

text \<open>
  C3. Constructing an address from a raw string \<open>raw\<close> normalises it to
  \<open>n = raw.lower().strip()\<close>. Construction succeeds if and only if \<open>n\<close> contains \<open>@\<close>
  and ends with \<open>.com\<close>, \<open>.ru\<close> or \<open>.net\<close>, and then the \<open>address\<close> accessor returns
  exactly \<open>n\<close>; for every other string (so when \<open>@\<close> is missing, when \<open>n\<close> is empty, when
  the suffix is not supported) it raises the error carrying the raw input and returns no
  object. A string of whitespace only is refused. This holds whatever the lower-casing
  function is.
\<close>

theorem EmailAddress_init_validates:
  fixes lower :: "pystr \<Rightarrow> pystr" and raw :: pystr
  defines "n \<equiv> py_strip (lower raw)"
  defines "ok \<equiv> 64 \<in> set n \<and> (py_endswith n (u ''.com'') \<or> py_endswith n (u ''.ru'')
                  \<or> py_endswith n (u ''.net''))"
  shows "((\<exists>a. EmailAddress_init lower raw = Inr a) \<longleftrightarrow> ok)
    \<and> (\<forall>a. EmailAddress_init lower raw = Inr a \<longrightarrow> address a = n)
    \<and> (\<not> ok \<longrightarrow> EmailAddress_init lower raw = Inl (ValueError (invalid_email_prefix @ raw)))
    \<and> (n = [] \<longrightarrow> \<not> ok)
    \<and> ((\<forall>c \<in> set raw. isspace c) \<longrightarrow>
          EmailAddress_init lower_latin1 raw = Inl (ValueError (invalid_email_prefix @ raw)))"
proof -
  have ws: "EmailAddress_init lower_latin1 raw = Inl (ValueError (invalid_email_prefix @ raw))"
    if "\<forall>c \<in> set raw. isspace c"
    using that
    by (simp add: EmailAddress_init_def normalize_address_def check_correct_email_def
        lower_latin1_space py_strip_all_space)
  show ?thesis
    unfolding n_def ok_def using ws
    by (auto simp: EmailAddress_init_def normalize_address_def check_correct_email_def Let_def)
qed


theorem EmailAddress_init_validates_witness:
  "EmailAddress_init lower_latin1 (u ''  USER@GMAIL.COM  '') = Inr (Address (u ''user@gmail.com''))
   \<and> address (Address (u ''user@gmail.com'')) = py_strip (lower_latin1 (u ''  USER@GMAIL.COM  ''))
   \<and> EmailAddress_init lower_latin1 (u ''name@domain.xyz'')
       = Inl (ValueError (invalid_email_prefix @ u ''name@domain.xyz''))
   \<and> EmailAddress_init lower_latin1 (u ''noatsymbol.com'')
       = Inl (ValueError (invalid_email_prefix @ u ''noatsymbol.com''))
   \<and> EmailAddress_init lower_latin1 (u ''    '')
       = Inl (ValueError (invalid_email_prefix @ u ''    ''))
   \<and> EmailAddress_init lower_latin1 [] = Inl (ValueError invalid_email_prefix)"
proof -
  have ok: "EmailAddress_init lower_latin1 (u ''  USER@GMAIL.COM  '') = Inr (Address (u ''user@gmail.com''))"
    by (simp add: addr_eval str_eval)
  have sp: "\<forall>c \<in> set (u ''    ''). isspace c" by (simp add: str_eval)
  have e: "\<forall>c \<in> set ([]::pystr). isspace c" by simp
  have x: "\<not> (64 \<in> set (py_strip (lower_latin1 (u ''name@domain.xyz'')))
     \<and> (py_endswith (py_strip (lower_latin1 (u ''name@domain.xyz''))) (u ''.com'')
       \<or> py_endswith (py_strip (lower_latin1 (u ''name@domain.xyz''))) (u ''.ru'')
       \<or> py_endswith (py_strip (lower_latin1 (u ''name@domain.xyz''))) (u ''.net'')))"
    by (simp add: addr_eval str_eval)
  have y: "\<not> (64 \<in> set (py_strip (lower_latin1 (u ''noatsymbol.com'')))
     \<and> (py_endswith (py_strip (lower_latin1 (u ''noatsymbol.com''))) (u ''.com'')
       \<or> py_endswith (py_strip (lower_latin1 (u ''noatsymbol.com''))) (u ''.ru'')
       \<or> py_endswith (py_strip (lower_latin1 (u ''noatsymbol.com''))) (u ''.net'')))"
    by (simp add: addr_eval str_eval)
  show ?thesis
    using EmailAddress_init_validates [of lower_latin1 "u ''  USER@GMAIL.COM  ''"]
      EmailAddress_init_validates [of lower_latin1 "u ''name@domain.xyz''"]
      EmailAddress_init_validates [of lower_latin1 "u ''noatsymbol.com''"]
      EmailAddress_init_validates [of lower_latin1 "u ''    ''"]
      EmailAddress_init_validates [of lower_latin1 "[]"]
      ok sp e x y
    by simp
qed

section \<open>Field validation\<close>

text \<open>
  C4 as stated (true if and only if subject and body are both non-empty after trimming)
  fails: a subject of three spaces is empty after trimming, and \<open>is_valid_fields\<close> is true.
\<close>

theorem is_valid_fields_trim_counterexample:
  "\<not> (is_valid_fields \<lparr>subject = u ''   '', body = u ''x'', sender = None, recipients = [],
          date = None, short_body = None, status = DRAFT\<rparr>
      = (py_strip (u ''   '') \<noteq> [] \<and> py_strip (u ''x'') \<noteq> []))"
  by (simp add: is_valid_fields_def str_eval)

text \<open>
  C4, amended. \<open>is_valid_fields\<close> is true if and only if the subject is not empty and the
  body is not empty, on the field values as they are at the call, with no trimming: a
  field of whitespace only counts as filled.
\<close>

theorem is_valid_fields_nonempty:
  "is_valid_fields self = (subject self \<noteq> [] \<and> body self \<noteq> [])"
  by (simp add: is_valid_fields_def)

theorem is_valid_fields_nonempty_witness:
  "is_valid_fields \<lparr>subject = u ''   '', body = u ''x'', sender = None, recipients = [],
      date = None, short_body = None, status = DRAFT\<rparr>
   \<and> \<not> is_valid_fields \<lparr>subject = [], body = u ''x'', sender = None, recipients = [],
      date = None, short_body = None, status = DRAFT\<rparr>"
  using is_valid_fields_nonempty [of "\<lparr>subject = u ''   '', body = u ''x'', sender = None,
      recipients = [], date = None, short_body = None, status = DRAFT\<rparr>"]
    is_valid_fields_nonempty [of "\<lparr>subject = [], body = u ''x'', sender = None,
      recipients = [], date = None, short_body = None, status = DRAFT\<rparr>"]
  by (simp add: u_def)

section \<open>The masked address\<close>

lemma py_split_on_length: "length (py_split_on sep s) = Suc (count_list s sep)"
  by (induction s) (auto split: list.splits)

lemma py_split_on_join: "py_join [sep] (py_split_on sep s) = s"
proof (induction s)
  case Nil
  show ?case by simp
next
  case (Cons c cs)
  obtain w ws where w: "py_split_on sep cs = w # ws"
    using py_split_on_length [of sep cs] by (cases "py_split_on sep cs") auto
  show ?case
  proof (cases "c = sep")
    case True
    then show ?thesis using Cons w by simp
  next
    case False
    then show ?thesis using Cons w by (simp add: py_join_Cons_Cons)
  qed
qed

lemma masked_one_at:
  assumes "count_list (address a) 64 = 1"
  shows "\<exists>local domain. address a = local @ [64] @ domain
     \<and> masked a = Inr (take 2 local @ u ''***@'' @ domain)"
proof -
  have "length (py_split_on 64 (address a)) = 2"
    using assms by (simp add: py_split_on_length)
  then obtain local domain where sp: "py_split_on 64 (address a) = [local, domain]"
    by (cases "py_split_on 64 (address a)"; cases "tl (py_split_on 64 (address a))") auto
  have "address a = local @ [64] @ domain"
    using py_split_on_join [of 64 "address a"] sp by simp
  moreover have "masked a = Inr (take 2 local @ u ''***@'' @ domain)"
    using sp by (simp add: masked_def)
  ultimately show ?thesis by blast
qed

lemma masked_raises_iff: "(masked a = Inl UnpackValueError) = (count_list (address a) 64 \<noteq> 1)"
proof -
  have len: "length (py_split_on 64 (address a)) = Suc (count_list (address a) 64)"
    by (rule py_split_on_length)
  show ?thesis
  proof (cases "py_split_on 64 (address a)")
    case Nil
    then show ?thesis using len by simp
  next
    case (Cons w ws)
    then show ?thesis using len
      by (cases ws; cases "tl ws") (auto simp: masked_def)
  qed
qed

text \<open>
  C5. The claim is that \<open>masked\<close> returns on every constructible address. The address
  \<open>a@b@c.com\<close> is constructible, and its \<open>masked\<close> raises: the split at \<open>@\<close> has three
  pieces, and the assignment to \<open>local, domain\<close> takes exactly two.
\<close>

theorem masked_two_at_raises:
  "EmailAddress_init lower_latin1 (u ''a@b@c.com'') = Inr (Address (u ''a@b@c.com''))
   \<and> masked (Address (u ''a@b@c.com'')) = Inl UnpackValueError"
  by (simp add: addr_eval str_eval masked_def)

section \<open>Preparing a message\<close>

lemma clean_data_eq:
  "self < length h \<Longrightarrow>
   clean_data h self =
     (h[self := (h ! self)\<lparr>subject := clean_text (subject (h ! self)),
                          body := clean_text (body (h ! self))\<rparr>], self)"
  by (simp add: clean_data_def Let_def)

lemma prepare_eq: "self < length h \<Longrightarrow> prepare h self = (h[self := prepared (h ! self)], self)"
  by (simp add: prepare_def clean_data_eq add_short_body_def py_slice_to_def prepared_def Let_def)

lemma prepared_idem: "prepared (prepared e) = prepared e"
  by (simp add: prepared_def clean_text_idem)

text \<open>
  C2. \<open>prepare\<close> on a message of the store first cleans subject and body, then sets the
  status to \<open>READY\<close> if and only if the cleaned subject is not empty, the cleaned body is
  not empty, the sender is not \<open>None\<close> and the recipients list is not empty, and to
  \<open>INVALID\<close> otherwise; it then computes \<open>short_body\<close> from the cleaned body with
  \<open>n = 10\<close>, and returns the same message. It changes no other field and no other
  object, and it raises nothing: \<open>prepare\<close> is a total function with no error result.
\<close>

theorem prepare_sets_status:
  assumes "self < length h"
  shows "snd (prepare h self) = self
    \<and> length (fst (prepare h self)) = length h
    \<and> (\<forall>r. r \<noteq> self \<longrightarrow> fst (prepare h self) ! r = h ! r)
    \<and> subject (fst (prepare h self) ! self) = clean_text (subject (h ! self))
    \<and> body (fst (prepare h self) ! self) = clean_text (body (h ! self))
    \<and> (status (fst (prepare h self) ! self) = READY \<longleftrightarrow>
         clean_text (subject (h ! self)) \<noteq> [] \<and> clean_text (body (h ! self)) \<noteq> []
         \<and> sender (h ! self) \<noteq> None \<and> recipients (h ! self) \<noteq> [])
    \<and> (status (fst (prepare h self) ! self) \<noteq> READY \<longleftrightarrow>
         status (fst (prepare h self) ! self) = INVALID)
    \<and> short_body (fst (prepare h self) ! self) =
         (if clean_text (body (h ! self)) = [] then None
          else if length (clean_text (body (h ! self))) \<le> 10
            then Some (clean_text (body (h ! self)))
          else Some (take 10 (clean_text (body (h ! self))) @ u ''...''))
    \<and> sender (fst (prepare h self) ! self) = sender (h ! self)
    \<and> recipients (fst (prepare h self) ! self) = recipients (h ! self)
    \<and> date (fst (prepare h self) ! self) = date (h ! self)"
  using assms by (simp add: prepare_eq prepared_def)

text \<open>
  C7. \<open>prepare\<close> is idempotent: a second call leaves the store, and so the message's
  subject, body, status and \<open>short_body\<close>, exactly as the first call left them, and
  returns the same message.
\<close>

theorem prepare_idempotent:
  assumes "self < length h"
  shows "prepare (fst (prepare h self)) self = prepare h self"
  using assms by (simp add: prepare_eq prepared_idem)


lemma example_email_fields:
  "clean_text (subject example_email) = u ''Hello world''"
  "clean_text (body example_email) = u ''Test body with spaces''"
  "sender example_email = Some (Address (u ''a@a.com''))"
  "recipients example_email = [Address (u ''b@b.com''), Address (u ''c@c.com'')]"
  "date example_email = None"
  "status example_email = DRAFT"
  by (simp_all add: example_email_def clean_text_def str_eval)

theorem prepare_sets_status_witness:
  "(0::nat) < length [example_email]
   \<and> snd (prepare [example_email] 0) = 0
   \<and> subject (fst (prepare [example_email] 0) ! 0) = u ''Hello world''
   \<and> body (fst (prepare [example_email] 0) ! 0) = u ''Test body with spaces''
   \<and> status (fst (prepare [example_email] 0) ! 0) = READY
   \<and> short_body (fst (prepare [example_email] 0) ! 0) = Some (u ''Test body ...'')"
proof -
  have h: "(0::nat) < length [example_email]" by simp
  show ?thesis
    using prepare_sets_status [OF h]
    by (simp add: example_email_fields) (simp add: u_def)
qed

theorem prepare_idempotent_witness:
  "(0::nat) < length [example_email]
   \<and> prepare (fst (prepare [example_email] 0)) 0 = prepare [example_email] 0
   \<and> prepare [example_email] 0 =
       ([example_email\<lparr>subject := u ''Hello world'', body := u ''Test body with spaces'',
           status := READY, short_body := Some (u ''Test body ...'')\<rparr>], 0)"
proof -
  have h: "(0::nat) < length [example_email]" by simp
  have "prepare [example_email] 0 =
       ([example_email\<lparr>subject := u ''Hello world'', body := u ''Test body with spaces'',
           status := READY, short_body := Some (u ''Test body ...'')\<rparr>], 0)"
    by (simp add: prepare_eq prepared_def example_email_fields) (simp add: u_def)
  then show ?thesis using prepare_idempotent [OF h] by simp
qed

section \<open>Sending\<close>

lemma send_loop_eq:
  assumes "email self < length h"
  shows "send_loop clk self rs k h sent =
     (h @ map (\<lambda>i. (h ! email self)\<lparr>recipients := [rs ! i],
                      date := Some (add_send_date (clk (k + i))),
                      status := (if status (h ! email self) = READY then SENT else FAILED)\<rparr>)
               [0..<length rs],
      sent @ map (\<lambda>i. length h + i) [0..<length rs])"
  using assms
proof (induction rs arbitrary: k h sent)
  case Nil
  then show ?case by simp
next
  case (Cons r rs)
  let ?c = "(h ! email self)\<lparr>recipients := [r], date := Some (add_send_date (clk k)),
              status := (if status (h ! email self) = READY then SENT else FAILED)\<rparr>"
  have step: "send_loop clk self (r # rs) k h sent
      = send_loop clk self rs (Suc k) (h @ [?c]) (sent @ [length h])"
    using Cons.prems by (simp add: deepcopy_def nth_append Let_def)
  have lt: "email self < length (h @ [?c])" using Cons.prems by simp
  have same: "(h @ [?c]) ! email self = h ! email self"
    using Cons.prems by (simp add: nth_append)
  have upt: "[0..<length (r # rs)] = 0 # map Suc [0..<length rs]"
    by (simp add: upt_conv_Cons map_Suc_upt del: upt_Suc)
  show ?case
    unfolding step Cons.IH [OF lt] same upt
    by (simp add: comp_def)
qed

lemma send_email_eq:
  assumes "email self < length h"
  shows "send_email clk h self =
     (h @ map (sent_copy clk (h ! email self)) [0..<length (recipients (h ! email self))],
      map (\<lambda>i. length h + i) [0..<length (recipients (h ! email self))])"
  using assms by (simp add: send_email_def send_loop_eq sent_copy_def)


lemma digit_range: "48 \<le> digit n" "digit n \<le> 57"
proof -
  have "n mod 10 < 10" by simp
  then show "48 \<le> digit n" "digit n \<le> 57" unfolding digit_def by linarith+
qed



text \<open>
  C6. \<open>send_email\<close> never changes the bound message, nor any object that existed
  before the call: afterwards the message's date is still \<open>None\<close> if it was before, and
  its status, subject, body, sender, recipients and \<open>short_body\<close> are what they were.
\<close>

theorem send_email_keeps_original:
  assumes "email self < length h"
  shows "take (length h) (fst (send_email clk h self)) = h
    \<and> fst (send_email clk h self) ! email self = h ! email self
    \<and> (date (h ! email self) = None \<longrightarrow> date (fst (send_email clk h self) ! email self) = None)
    \<and> status (fst (send_email clk h self) ! email self) = status (h ! email self)
    \<and> subject (fst (send_email clk h self) ! email self) = subject (h ! email self)
    \<and> body (fst (send_email clk h self) ! email self) = body (h ! email self)
    \<and> sender (fst (send_email clk h self) ! email self) = sender (h ! email self)
    \<and> recipients (fst (send_email clk h self) ! email self) = recipients (h ! email self)
    \<and> short_body (fst (send_email clk h self) ! email self) = short_body (h ! email self)"
  using assms by (simp add: send_email_eq nth_append)

lemma example_send:
  "send_email example_clock [example_ready] \<lparr>email = 0\<rparr> =
     ([example_ready,
       example_ready\<lparr>recipients := [Address (u ''b@b.com'')], date := Some (u ''2026-11-03''),
          status := SENT\<rparr>,
       example_ready\<lparr>recipients := [Address (u ''c@c.com'')], date := Some (u ''2026-11-04''),
          status := SENT\<rparr>],
      [1, 2])"
  by (simp add: send_email_def deepcopy_def example_ready_def example_clock_def add_send_date_def
      strftime_ymd_def digit_def u_def)


theorem send_email_keeps_original_witness:
  "email \<lparr>email = 0\<rparr> < length [example_ready]
   \<and> date ([example_ready] ! 0) = None
   \<and> date (fst (send_email example_clock [example_ready] \<lparr>email = 0\<rparr>) ! 0) = None
   \<and> fst (send_email example_clock [example_ready] \<lparr>email = 0\<rparr>) ! 0 = example_ready
   \<and> length (fst (send_email example_clock [example_ready] \<lparr>email = 0\<rparr>)) = 3"
proof -
  have h: "email \<lparr>email = 0\<rparr> < length [example_ready]" by simp
  have d: "date ([example_ready] ! email \<lparr>email = 0\<rparr>) = None" by (simp add: example_ready_def)
  show ?thesis
    using send_email_keeps_original [OF h, of example_clock] d
    by (simp add: example_send)
qed

section \<open>Logging\<close>

lemma utf8_encodable_append [simp]:
  "utf8_encodable (xs @ ys) = (utf8_encodable xs \<and> utf8_encodable ys)"
  by (auto simp: utf8_encodable_def)

lemma utf8_encodable_small: "\<forall>c \<in> set s. c < 55296 \<Longrightarrow> utf8_encodable s"
  by (auto simp: utf8_encodable_def surrogate_def)

lemma digit_bounds: "45 \<le> digit n \<and> digit n \<le> 57"
  using digit_range [of n] by linarith

lemma add_send_date_chars: "c \<in> set (add_send_date d) \<Longrightarrow> 45 \<le> c \<and> c \<le> 57"
  by (auto simp: add_send_date_def strftime_ymd_def u_def digit_bounds)

lemma utf8_encodable_sent_line:
  "utf8_encodable (sent_line clk e s i) =
     (utf8_encodable (address s) \<and> utf8_encodable (address (recipients e ! i))
      \<and> utf8_encodable (subject e))"
proof -
  have d: "utf8_encodable (add_send_date (clk i))"
    by (rule utf8_encodable_small) (use add_send_date_chars in fastforce)
  have l: "utf8_encodable (u ''['')" "utf8_encodable (u ''] Status: '')"
    "utf8_encodable (u ''sent'')" "utf8_encodable (u ''failed'')" "utf8_encodable (u '', '')"
    "utf8_encodable (u '': '')" "utf8_encodable label_from" "utf8_encodable label_to"
    "utf8_encodable label_subject" "utf8_encodable [10]"
    by (simp_all add: utf8_encodable_def surrogate_def u_def label_from_def label_to_def
        label_subject_def)
  show ?thesis by (auto simp: sent_line_def d l)
qed

lemma newlines_sent_line:
  "count_list (sent_line clk e s i) 10 =
     1 + count_list (address s) 10 + count_list (address (recipients e ! i)) 10
       + count_list (subject e) 10"
proof -
  have "10 \<notin> set (add_send_date (clk i))"
    using add_send_date_chars [of 10 "clk i"] by auto
  then have d: "count_list (add_send_date (clk i)) 10 = 0" by simp
  show ?thesis
    by (simp add: sent_line_def d u_def label_from_def label_to_def label_subject_def)
qed

lemma last_sent_line: "last (sent_line clk e s i) = 10"
  by (simp add: sent_line_def)

lemma write_log_all:
  assumes "\<forall>r \<in> set rs. log_line (h ! r) = Inr (f r) \<and> utf8_encodable (f r)"
  shows "write_log h rs log_file = (log_file @ concat (map f rs), None)"
  using assms by (induction rs arbitrary: log_file) (simp_all add: file_write_def)

lemma write_log_stop:
  assumes "\<forall>r \<in> set rs. log_line (h ! r) = Inr (f r) \<and> utf8_encodable (f r)"
    and "log_line (h ! r) = Inr (f r)" and "\<not> utf8_encodable (f r)"
  shows "write_log h (rs @ r # rs') log_file =
           (log_file @ concat (map f rs), Some UnicodeEncodeError)"
  using assms by (induction rs arbitrary: log_file) (simp_all add: file_write_def)

lemma log_line_sent_copy:
  assumes "sender e = Some s"
  shows "log_line (sent_copy clk e i) = Inr (sent_line clk e s i)"
  using assms
  by (simp add: log_line_def sent_copy_def sent_line_def format_opt_def get_recipients_str_def)


lemma logging_send_email_eq:
  assumes "email self < length h"
  shows "logging_send_email clk h self log_file =
     (let h' = h @ map (sent_copy clk (h ! email self)) [0..<length (recipients (h ! email self))];
          refs = map (\<lambda>i. length h + i) [0..<length (recipients (h ! email self))];
          (log_file', raised) = write_log h' refs log_file
      in (h', log_file', (case raised of None \<Rightarrow> Inr refs | Some err \<Rightarrow> Inl err)))"
  using assms by (simp add: logging_send_email_def send_email_eq Let_def)

lemma write_log_sent_all:
  assumes "sender e = Some s"
    and "\<forall>i < n. utf8_encodable (sent_line clk e s i)"
  shows "write_log (h @ map (sent_copy clk e) [0..<n]) (map (\<lambda>i. length h + i) [0..<n]) log_file
     = (log_file @ concat (map (sent_line clk e s) [0..<n]), None)"
proof -
  let ?h' = "h @ map (sent_copy clk e) [0..<n]"
  let ?refs = "map (\<lambda>i. length h + i) [0..<n]"
  let ?f = "\<lambda>r. sent_line clk e s (r - length h)"
  have "\<forall>r \<in> set ?refs. log_line (?h' ! r) = Inr (?f r) \<and> utf8_encodable (?f r)"
    using assms by (auto simp: nth_append log_line_sent_copy)
  then have "write_log ?h' ?refs log_file = (log_file @ concat (map ?f ?refs), None)"
    by (rule write_log_all)
  moreover have "map ?f ?refs = map (sent_line clk e s) [0..<n]"
    by (simp add: comp_def)
  ultimately show ?thesis by (simp only:)
qed

lemma write_log_sent_stop:
  assumes "sender e = Some s" and "k < n"
    and "\<forall>i < k. utf8_encodable (sent_line clk e s i)"
    and "\<not> utf8_encodable (sent_line clk e s k)"
  shows "write_log (h @ map (sent_copy clk e) [0..<n]) (map (\<lambda>i. length h + i) [0..<n]) log_file
     = (log_file @ concat (map (sent_line clk e s) [0..<k]), Some UnicodeEncodeError)"
proof -
  let ?h' = "h @ map (sent_copy clk e) [0..<n]"
  let ?g = "\<lambda>i. length h + i"
  let ?f = "\<lambda>r. sent_line clk e s (r - length h)"
  have split: "[0..<n] = [0..<k] @ k # [Suc k..<n]"
    using assms(2) by (metis le_add1 less_imp_add_positive upt_add_eq_append upt_conv_Cons
        add.left_neutral)
  have refs: "map ?g [0..<n] = map ?g [0..<k] @ ?g k # map ?g [Suc k..<n]"
    by (subst split) simp
  have a: "\<forall>r \<in> set (map ?g [0..<k]). log_line (?h' ! r) = Inr (?f r) \<and> utf8_encodable (?f r)"
    using assms by (auto simp: nth_append log_line_sent_copy)
  have b: "log_line (?h' ! ?g k) = Inr (?f (?g k))"
    using assms by (simp add: nth_append log_line_sent_copy)
  have c: "\<not> utf8_encodable (?f (?g k))" using assms by simp
  have "write_log ?h' (map ?g [0..<k] @ ?g k # map ?g [Suc k..<n]) log_file
      = (log_file @ concat (map ?f (map ?g [0..<k])), Some UnicodeEncodeError)"
    using a b c by (rule write_log_stop)
  moreover have "map ?f (map ?g [0..<k]) = map (sent_line clk e s) [0..<k]"
    by (simp add: comp_def)
  ultimately show ?thesis unfolding refs by (simp only:)
qed

text \<open>
  C9, amended. \<open>LoggingEmailService.send_email\<close> calls the base \<open>send_email\<close> and then
  writes to the log, for each copy in the order produced, one text of the form
  \<open>[date] Status: status, From-label: sender address, To-label: recipient, Subject-label:
  subject\<close> followed by a newline, with the labels of the source. For a message whose
  sender is an address:
  \<^item> when the recipients list is empty it returns the empty list and the log is unchanged;
  \<^item> when the sender's address, every recipient's address and the subject can be encoded
    in UTF-8 (hold no surrogate code point), it returns exactly the list the base call
    produced, in the store the base call left, and the log grows by exactly these texts,
    one for each copy, in order;
  \<^item> otherwise the write for the first copy whose text cannot be encoded raises
    \<open>UnicodeEncodeError\<close>, no list is returned, and the log holds the texts of the copies
    before it;
  \<^item> the text of a copy ends with a newline and holds one newline more than the sender's
    address, the recipient's address and the subject hold together: it is exactly one
    line when none of them holds a newline.
\<close>

theorem logging_send_email_logs:
  fixes clk :: clock and h :: heap and self :: EmailService and log_file :: pystr
  defines "e \<equiv> h ! email self"
  defines "line \<equiv> \<lambda>s i.
     u ''['' @ add_send_date (clk i) @ u ''] Status: ''
     @ (if status e = READY then u ''sent'' else u ''failed'')
     @ u '', '' @ label_from @ u '': '' @ address s
     @ u '', '' @ label_to @ u '': '' @ address (recipients e ! i)
     @ u '', '' @ label_subject @ u '': '' @ subject e @ [10]"
  defines "enc \<equiv> \<lambda>s i. utf8_encodable (address s)
     \<and> utf8_encodable (address (recipients e ! i)) \<and> utf8_encodable (subject e)"
  assumes "email self < length h"
  shows "(recipients e = [] \<longrightarrow> logging_send_email clk h self log_file = (h, log_file, Inr []))
    \<and> (\<forall>s. sender e = Some s \<and> (\<forall>i < length (recipients e). enc s i) \<longrightarrow>
          logging_send_email clk h self log_file =
            (fst (send_email clk h self),
             log_file @ concat (map (line s) [0..<length (recipients e)]),
             Inr (snd (send_email clk h self))))
    \<and> (\<forall>s k. sender e = Some s \<and> k < length (recipients e) \<and> (\<forall>i < k. enc s i)
             \<and> \<not> enc s k \<longrightarrow>
          logging_send_email clk h self log_file =
            (fst (send_email clk h self),
             log_file @ concat (map (line s) [0..<k]),
             Inl UnicodeEncodeError))
    \<and> (\<forall>s i. last (line s i) = 10
          \<and> count_list (line s i) 10 =
              1 + count_list (address s) 10 + count_list (address (recipients e ! i)) 10
                + count_list (subject e) 10
          \<and> (10 \<notin> set (address s) \<and> 10 \<notin> set (address (recipients e ! i))
               \<and> 10 \<notin> set (subject e) \<longrightarrow> count_list (line s i) 10 = 1))"
proof -
  have line: "line = sent_line clk e" by (simp add: line_def sent_line_def [abs_def])
  have enc: "enc s i = utf8_encodable (sent_line clk e s i)" for s i
    by (simp add: enc_def utf8_encodable_sent_line)
  have empty: "logging_send_email clk h self log_file = (h, log_file, Inr [])"
    if "recipients e = []"
    using that by (simp add: logging_send_email_def send_email_def e_def)
  have all: "logging_send_email clk h self log_file =
            (fst (send_email clk h self),
             log_file @ concat (map (line s) [0..<length (recipients e)]),
             Inr (snd (send_email clk h self)))"
    if "sender e = Some s" and "\<forall>i < length (recipients e). enc s i" for s
  proof -
    have "write_log (h @ map (sent_copy clk e) [0..<length (recipients e)])
            (map (\<lambda>i. length h + i) [0..<length (recipients e)]) log_file
        = (log_file @ concat (map (sent_line clk e s) [0..<length (recipients e)]), None)"
      using that by (intro write_log_sent_all) (simp_all add: enc)
    then show ?thesis
      using assms(4) by (simp add: logging_send_email_eq send_email_eq line e_def)
  qed
  have stop: "logging_send_email clk h self log_file =
            (fst (send_email clk h self),
             log_file @ concat (map (line s) [0..<k]),
             Inl UnicodeEncodeError)"
    if "sender e = Some s" and "k < length (recipients e)" and "\<forall>i < k. enc s i"
      and "\<not> enc s k" for s k
  proof -
    have "write_log (h @ map (sent_copy clk e) [0..<length (recipients e)])
            (map (\<lambda>i. length h + i) [0..<length (recipients e)]) log_file
        = (log_file @ concat (map (sent_line clk e s) [0..<k]), Some UnicodeEncodeError)"
      using that by (intro write_log_sent_stop) (simp_all add: enc)
    then show ?thesis
      using assms(4) by (simp add: logging_send_email_eq send_email_eq line e_def)
  qed
  have lines: "last (line s i) = 10
          \<and> count_list (line s i) 10 =
              1 + count_list (address s) 10 + count_list (address (recipients e ! i)) 10
                + count_list (subject e) 10
          \<and> (10 \<notin> set (address s) \<and> 10 \<notin> set (address (recipients e ! i))
               \<and> 10 \<notin> set (subject e) \<longrightarrow> count_list (line s i) 10 = 1)" for s i
    by (simp add: line last_sent_line newlines_sent_line)
  show ?thesis using empty all stop lines by blast
qed



lemmas log_eval = logging_send_email_def send_email_def deepcopy_def file_write_def
  utf8_encodable_def surrogate_def log_line_def get_recipients_str_def format_opt_def
  example_ready_def example_clock_def add_send_date_def strftime_ymd_def digit_def u_def

text \<open>
  C9 as stated (for every message the list of the base call is returned and exactly one
  line is appended for each copy) fails. With the subject \<open>x\<close> followed by the surrogate
  \<open>U+D800\<close> the base call produces two copies, and the first write raises
  \<open>UnicodeEncodeError\<close>: nothing is appended and no list is returned. With the subject
  \<open>a\<close>, newline, \<open>b\<close> the two copies append four lines.
\<close>

theorem logging_send_email_counterexample:
  "snd (send_email example_clock [example_ready\<lparr>subject := [120, 55296]\<rparr>] \<lparr>email = 0\<rparr>) = [1, 2]
   \<and> logging_send_email example_clock [example_ready\<lparr>subject := [120, 55296]\<rparr>] \<lparr>email = 0\<rparr> []
       = (fst (send_email example_clock [example_ready\<lparr>subject := [120, 55296]\<rparr>] \<lparr>email = 0\<rparr>),
          [], Inl UnicodeEncodeError)
   \<and> snd (send_email example_clock [example_ready\<lparr>subject := [97, 10, 98]\<rparr>] \<lparr>email = 0\<rparr>) = [1, 2]
   \<and> count_list (fst (snd (logging_send_email example_clock
          [example_ready\<lparr>subject := [97, 10, 98]\<rparr>] \<lparr>email = 0\<rparr> []))) 10 = 4"
  by (simp add: log_eval label_from_def label_to_def label_subject_def)

theorem logging_send_email_logs_witness:
  "email \<lparr>email = 0\<rparr> < length [example_ready]
   \<and> sender ([example_ready] ! 0) = Some (Address (u ''a@a.com''))
   \<and> logging_send_email example_clock [example_ready] \<lparr>email = 0\<rparr> (u ''old'' @ [10]) =
       (fst (send_email example_clock [example_ready] \<lparr>email = 0\<rparr>),
        u ''old'' @ [10]
        @ u ''[2026-11-03] Status: sent, '' @ label_from @ u '': a@a.com, '' @ label_to
          @ u '': b@b.com, '' @ label_subject @ u '': Hello'' @ [10]
        @ u ''[2026-11-04] Status: sent, '' @ label_from @ u '': a@a.com, '' @ label_to
          @ u '': c@c.com, '' @ label_subject @ u '': Hello'' @ [10],
        Inr [1, 2])
   \<and> logging_send_email example_clock [example_ready\<lparr>recipients := []\<rparr>] \<lparr>email = 0\<rparr> (u ''old'')
       = ([example_ready\<lparr>recipients := []\<rparr>], u ''old'', Inr [])
   \<and> logging_send_email example_clock
         [example_ready\<lparr>recipients := [Address (u ''b@b.com''), Address (55296 # u ''@c.com'')]\<rparr>]
         \<lparr>email = 0\<rparr> (u ''old'' @ [10])
       = (fst (send_email example_clock
            [example_ready\<lparr>recipients := [Address (u ''b@b.com''), Address (55296 # u ''@c.com'')]\<rparr>]
            \<lparr>email = 0\<rparr>),
          u ''old'' @ [10]
          @ u ''[2026-11-03] Status: sent, '' @ label_from @ u '': a@a.com, '' @ label_to
            @ u '': b@b.com, '' @ label_subject @ u '': Hello'' @ [10],
          Inl UnicodeEncodeError)
   \<and> count_list (u ''[2026-11-03] Status: sent, '' @ label_from @ u '': a@a.com, '' @ label_to
          @ u '': b@b.com, '' @ label_subject @ u '': Hello'' @ [10]) 10 = 1"
proof -
  let ?s = "Address (u ''a@a.com'')"
  let ?bad = "example_ready\<lparr>recipients := [Address (u ''b@b.com''), Address (55296 # u ''@c.com'')]\<rparr>"
  have h: "email \<lparr>email = 0\<rparr> < length [example_ready]" by simp
  have h': "email \<lparr>email = 0\<rparr> < length [example_ready\<lparr>recipients := []\<rparr>]" by simp
  have h'': "email \<lparr>email = 0\<rparr> < length [?bad]" by simp
  have f: "recipients example_ready = [Address (u ''b@b.com''), Address (u ''c@c.com'')]"
    "status example_ready = READY" "subject example_ready = u ''Hello''"
    "sender example_ready = Some ?s"
    by (simp_all add: example_ready_def)
  have d: "add_send_date (example_clock 0) = u ''2026-11-03''"
    "add_send_date (example_clock (Suc 0)) = u ''2026-11-04''"
    by (simp_all add: example_clock_def add_send_date_def strftime_ymd_def digit_def u_def)
  have upt: "[0..<2] = [0, Suc 0]" by (simp add: upt_conv_Cons)
  have enc: "utf8_encodable (u ''a@a.com'')" "utf8_encodable (u ''b@b.com'')"
    "utf8_encodable (u ''c@c.com'')" "utf8_encodable (u ''Hello'')"
    "\<not> utf8_encodable (55296 # u ''@c.com'')"
    by (simp_all add: utf8_encodable_def surrogate_def u_def)
  have all: "\<forall>i < length (recipients ([example_ready] ! email \<lparr>email = 0\<rparr>)).
      utf8_encodable (address ?s)
      \<and> utf8_encodable (address (recipients ([example_ready] ! email \<lparr>email = 0\<rparr>) ! i))
      \<and> utf8_encodable (subject ([example_ready] ! email \<lparr>email = 0\<rparr>))"
    by (simp add: f enc less_Suc_eq)
  have a: "logging_send_email example_clock [example_ready] \<lparr>email = 0\<rparr> (u ''old'' @ [10]) =
       (fst (send_email example_clock [example_ready] \<lparr>email = 0\<rparr>),
        u ''old'' @ [10]
        @ u ''[2026-11-03] Status: sent, '' @ label_from @ u '': a@a.com, '' @ label_to
          @ u '': b@b.com, '' @ label_subject @ u '': Hello'' @ [10]
        @ u ''[2026-11-04] Status: sent, '' @ label_from @ u '': a@a.com, '' @ label_to
          @ u '': c@c.com, '' @ label_subject @ u '': Hello'' @ [10],
        Inr [1, 2])"
    using logging_send_email_logs [OF h, of example_clock "u ''old'' @ [10]",
        THEN conjunct2, THEN conjunct1, rule_format, where s = ?s] all
    by (simp add: f d upt example_send) (simp add: u_def)
  have b: "logging_send_email example_clock [example_ready\<lparr>recipients := []\<rparr>] \<lparr>email = 0\<rparr> (u ''old'')
       = ([example_ready\<lparr>recipients := []\<rparr>], u ''old'', Inr [])"
    using logging_send_email_logs [OF h', of example_clock "u ''old''", THEN conjunct1]
    by simp
  have c: "logging_send_email example_clock [?bad] \<lparr>email = 0\<rparr> (u ''old'' @ [10])
       = (fst (send_email example_clock [?bad] \<lparr>email = 0\<rparr>),
          u ''old'' @ [10]
          @ u ''[2026-11-03] Status: sent, '' @ label_from @ u '': a@a.com, '' @ label_to
            @ u '': b@b.com, '' @ label_subject @ u '': Hello'' @ [10],
          Inl UnicodeEncodeError)"
    using logging_send_email_logs [OF h'', of example_clock "u ''old'' @ [10]",
        THEN conjunct2, THEN conjunct2, THEN conjunct1, rule_format,
        where s = ?s and k = "Suc 0"]
    by (simp add: f d enc) (simp add: u_def)
  have n: "count_list (u ''[2026-11-03] Status: sent, '' @ label_from @ u '': a@a.com, '' @ label_to
          @ u '': b@b.com, '' @ label_subject @ u '': Hello'' @ [10]) 10 = 1"
    using logging_send_email_logs [OF h, of example_clock "[]",
        THEN conjunct2, THEN conjunct2, THEN conjunct2, rule_format,
        where s = ?s and i = 0]
    by (simp add: f d) (simp add: u_def)
  show ?thesis using a b c n by (simp add: f)
qed

section \<open>Rendering of the status\<close>

lemma Status_value_cases:
  "Status_value st \<in> {u ''draft'', u ''ready'', u ''sent'', u ''failed'', u ''invalid''}"
  by (cases st) simp_all

lemma Status_value_lower: "Status_value st = lower_latin1 (Status_name st)"
  by (cases st) (simp_all add: lower_latin1_def u_def)

lemma Status_value_length: "length (Status_value st) = length (Status_name st)"
  by (cases st) (simp_all add: u_def)

lemma Status_value_neq_name: "Status_value st \<noteq> Status_name st"
  by (cases st) (simp_all add: u_def)

lemma Email_str_returns:
  assumes "sender e = Some a" and "count_list (address a) 64 = 1"
  shows "\<exists>s. Email_str e = Inr s"
proof -
  from masked_one_at [OF assms(2)] obtain m where "masked a = Inr m" by blast
  then show ?thesis using assms(1) by (simp add: Email_str_def)
qed

text \<open>
  C10. In the display string and in every log line the status is printed as its lowercase
  value (\<open>draft\<close>, \<open>ready\<close>, \<open>sent\<close>, \<open>failed\<close>, \<open>invalid\<close>), never as the uppercase
  member name: whenever \<open>__str__\<close> returns, its result starts with \<open>Status: \<close>, the value
  and a newline, and does not start with \<open>Status: \<close> and the name; a log line reads
  \<open>] Status: \<close> and the value after the date, not the name. \<open>__repr__\<close> is the same
  string. Both renderings do return: \<open>__str__\<close> when the sender's address holds one \<open>@\<close>,
  the log line when there is a sender.
\<close>

theorem status_rendered_lowercase:
  "(\<forall>s. Email_str e = Inr s \<longrightarrow>
       (\<exists>rest. s = u ''Status: '' @ Status_value (status e) @ [10] @ rest)
       \<and> take (length (u ''Status: '' @ Status_name (status e))) s
           \<noteq> u ''Status: '' @ Status_name (status e))
   \<and> (\<forall>l. log_line e = Inr l \<longrightarrow>
       (\<exists>rest. l = u ''['' @ format_opt (date e) @ u ''] Status: '' @ Status_value (status e)
                  @ u '', '' @ rest)
       \<and> take (length (Status_name (status e)))
            (drop (length (u ''['' @ format_opt (date e) @ u ''] Status: '')) l)
           \<noteq> Status_name (status e))
   \<and> Status_value (status e) \<in> {u ''draft'', u ''ready'', u ''sent'', u ''failed'', u ''invalid''}
   \<and> Status_value (status e) = lower_latin1 (Status_name (status e))
   \<and> Status_value (status e) \<noteq> Status_name (status e)
   \<and> Email_repr e = Email_str e
   \<and> (\<forall>a. sender e = Some a \<and> count_list (address a) 64 = 1 \<longrightarrow> (\<exists>s. Email_str e = Inr s))
   \<and> (sender e \<noteq> None \<longrightarrow> (\<exists>l. log_line e = Inr l))"
proof -
  let ?v = "Status_value (status e)" and ?n = "Status_name (status e)"
  have len: "length ?v = length ?n" by (rule Status_value_length)
  have neq: "?v \<noteq> ?n" by (rule Status_value_neq_name)
  have str: "(\<exists>rest. s = u ''Status: '' @ ?v @ [10] @ rest)
       \<and> take (length (u ''Status: '' @ ?n)) s \<noteq> u ''Status: '' @ ?n"
    if "Email_str e = Inr s" for s
  proof -
    from that obtain rest where s: "s = u ''Status: '' @ ?v @ [10] @ rest"
      by (auto simp: Email_str_def split: option.splits sum.splits)
    have "take (length (u ''Status: '' @ ?n)) s = u ''Status: '' @ ?v"
      unfolding s using len by simp
    then show ?thesis using s neq by simp
  qed
  have line: "(\<exists>rest. l = u ''['' @ format_opt (date e) @ u ''] Status: '' @ ?v @ u '', '' @ rest)
       \<and> take (length ?n) (drop (length (u ''['' @ format_opt (date e) @ u ''] Status: '')) l)
           \<noteq> ?n"
    if "log_line e = Inr l" for l
  proof -
    from that obtain rest where
      l: "l = (u ''['' @ format_opt (date e) @ u ''] Status: '') @ ?v @ u '', '' @ rest"
      by (auto simp: log_line_def split: option.splits)
    have "take (length ?n) (drop (length (u ''['' @ format_opt (date e) @ u ''] Status: '')) l) = ?v"
      unfolding l using len by simp
    then show ?thesis using l neq by simp
  qed
  have ret: "\<exists>l. log_line e = Inr l" if "sender e \<noteq> None"
    using that by (auto simp: log_line_def)
  show ?thesis
    using str line ret Status_value_cases [of "status e"] Status_value_lower [of "status e"] neq
      Email_str_returns [of e]
    by (simp add: Email_repr_def)
qed

theorem status_rendered_lowercase_witness:
  "Email_str (example_ready\<lparr>short_body := Some (u ''Msg'')\<rparr>) =
     Inr (u ''Status: ready'' @ [10] @ label_to @ u '': b@b.com, c@c.com'' @ [10]
          @ label_from @ u '': a***@a.com'' @ [10]
          @ label_subject @ u '': Hello, '' @ label_date @ u '' None'' @ [10] @ u ''Msg'')
   \<and> take (length (u ''Status: READY'')) (u ''Status: ready'' @ [10]) \<noteq> u ''Status: READY''
   \<and> log_line (example_ready\<lparr>date := Some (u ''2026-11-03''), status := FAILED\<rparr>) =
     Inr (u ''[2026-11-03] Status: failed, '' @ label_from @ u '': a@a.com, '' @ label_to
          @ u '': b@b.com, c@c.com, '' @ label_subject @ u '': Hello'' @ [10])"
proof -
  have a: "Email_str (example_ready\<lparr>short_body := Some (u ''Msg'')\<rparr>) =
     Inr (u ''Status: ready'' @ [10] @ label_to @ u '': b@b.com, c@c.com'' @ [10]
          @ label_from @ u '': a***@a.com'' @ [10]
          @ label_subject @ u '': Hello, '' @ label_date @ u '' None'' @ [10] @ u ''Msg'')"
    by (simp add: Email_str_def example_ready_def get_recipients_str_def masked_def format_opt_def
        u_def)
  have b: "log_line (example_ready\<lparr>date := Some (u ''2026-11-03''), status := FAILED\<rparr>) =
     Inr (u ''[2026-11-03] Status: failed, '' @ label_from @ u '': a@a.com, '' @ label_to
          @ u '': b@b.com, c@c.com, '' @ label_subject @ u '': Hello'' @ [10])"
    by (simp add: log_line_def example_ready_def get_recipients_str_def format_opt_def u_def)
  show ?thesis
    using status_rendered_lowercase [of "example_ready\<lparr>short_body := Some (u ''Msg'')\<rparr>"]
      status_rendered_lowercase [of "example_ready\<lparr>date := Some (u ''2026-11-03''),
         status := FAILED\<rparr>"] a b
    by (simp add: u_def)
qed

end
